theory Spec2Isabelle
  imports Complex_Main "HOL-Library.AList"
begin

section \<open>The publish/subscribe hub of \<^verbatim>\<open>server_fixed.py\<close>\<close>

text \<open>
  The server keeps two module-level dictionaries, \<^verbatim>\<open>connected_clients\<close> (the
  connection registry) and \<^verbatim>\<open>client_subscriptions\<close> (the subscription table).
  Socket.IO event handlers mutate them; a background loop, \<^verbatim>\<open>broadcast_frames\<close>,
  reads them once per second and emits a frame to every connection subscribed to the
  topic \<^verbatim>\<open>stream_frames\<close>.

  A Python dictionary keeps its keys in insertion order, and the broadcast loop iterates
  over one, so a dictionary is an association list: \<open>AList.update\<close> overwrites the
  value of a present key in place and appends an absent key at the end, as
  \<^verbatim>\<open>d[k] = v\<close> does, and \<open>AList.delete\<close> is \<^verbatim>\<open>del d[k]\<close>. The lists
  of a state that the handlers build never repeat a key; \<open>dict_ok\<close> below says so.

  The handlers and the loop run in different threads, with no lock. The model takes each
  handler call as one step on the shared state. A pass of the loop is not one step: it
  tests the registry once and then iterates twice over the live subscription table, and
  handler threads may change the table meanwhile. What the pass reads from the live
  table is a parameter of the pass (\<open>live_reads\<close> below).
\<close>

subsection \<open>Values received from clients\<close>

text \<open>
  Event payloads are decoded JSON. Numbers are rationals (every finite float is one, and
  Python compares an int and a float by value).
\<close>

datatype json =
    JNull
  | JBool bool
  | JNum rat
  | JStr string
  | JArr "json list"
  | JObj "(string \<times> json) list"

datatype py_error = AttributeError | TypeError | SendFailed | RuntimeError


text \<open>
  \<^verbatim>\<open>data.get(key, default)\<close>: only a dict has the method; on any other value the
  attribute lookup raises \<^verbatim>\<open>AttributeError\<close>.
\<close>

fun py_get :: "json \<Rightarrow> string \<Rightarrow> json \<Rightarrow> py_error + json" where
  "py_get (JObj kvs) k d = Inr (case map_of kvs k of None \<Rightarrow> d | Some v \<Rightarrow> v)"
| "py_get _ k d = Inl AttributeError"

text \<open>
  Members of a Python set must be hashable: lists and dicts are not. \<^verbatim>\<open>True\<close> and
  \<^verbatim>\<open>1\<close> (and \<^verbatim>\<open>False\<close> and \<^verbatim>\<open>0\<close>) are one set member; \<open>set_key\<close> maps
  a value to the representative under which the model stores it.
\<close>

fun hashable :: "json \<Rightarrow> bool" where
  "hashable (JArr xs) = False"
| "hashable (JObj kvs) = False"
| "hashable v = True"

fun set_key :: "json \<Rightarrow> json" where
  "set_key (JBool b) = JNum (if b then 1 else 0)"
| "set_key v = v"

subsection \<open>Shared state\<close>

type_synonym sid = string

text \<open>An instant as \<^verbatim>\<open>datetime.now()\<close> reads it, in seconds.\<close>

type_synonym datetime = rat

record client_info =
  connected_at :: datetime
  ip :: "string option"

record server_state =
  connected_clients :: "(sid \<times> client_info) list"
  client_subscriptions :: "(sid \<times> json set) list"

definition initial_state :: server_state where
  "initial_state = \<lparr>connected_clients = [], client_subscriptions = []\<rparr>"

text \<open>\<^verbatim>\<open>k in d\<close> for a dictionary.\<close>

definition dict_in :: "'k \<Rightarrow> ('k \<times> 'v) list \<Rightarrow> bool" where
  "dict_in k d = (map_of d k \<noteq> None)"

definition dict_ok :: "server_state \<Rightarrow> bool" where
  "dict_ok st = (distinct (map fst (connected_clients st)) \<and>
                 distinct (map fst (client_subscriptions st)))"

subsection \<open>Library functions and clock reads\<close>

text \<open>
  Formatting of instants and the drawing, PNG encoding and base64 encoding of the test
  image are done by the standard library and by PIL. They are parameters of the model.
\<close>

record lib =
  isoformat :: "datetime \<Rightarrow> string"
  strftime_hms :: "datetime \<Rightarrow> string"
  png_base64 :: "string \<Rightarrow> string"

text \<open>The three clock reads of one call of \<^verbatim>\<open>generate_test_image\<close>, in order.\<close>

record clock_reads =
  now_text :: datetime
  time_time :: rat
  now_stamp :: datetime

text \<open>\<^verbatim>\<open>int(x)\<close> on a float truncates towards zero.\<close>

definition py_int :: "rat \<Rightarrow> int" where
  "py_int x = (if 0 \<le> x then \<lfloor>x\<rfloor> else \<lceil>x\<rceil>)"

text \<open>Decimal text of an integer, as an f-string prints it.\<close>

definition digit_char :: "nat \<Rightarrow> char" where
  "digit_char d = char_of (48 + d)"

fun digits :: "nat \<Rightarrow> string" where
  "digits n = (if n < 10 then [digit_char n] else digits (n div 10) @ [digit_char (n mod 10)])"

declare digits.simps [simp del]

definition str_int :: "int \<Rightarrow> string" where
  "str_int k = (if k < 0 then CHR ''-'' # digits (nat (- k)) else digits (nat k))"

subsection \<open>Messages and log lines\<close>

record image_data =
  img_name :: string
  base_64_img :: string
  timestamp :: string
  width :: int
  height :: int

datatype payload =
    Welcome string string sid
  | SubscriptionConfirmed json string
  | ImageResponse string image_data
  | SendFrames string string string

text \<open>\<open>Emit event payload room\<close>: one message handed to the transport for one connection.\<close>

datatype emission = Emit string payload sid

datatype log_line =
    ClientConnected sid
  | ClientDisconnected sid
  | ClientSubscribed sid json
  | ReceivedRequestImage sid json
  | SentImage sid
  | Feedback json
  | EmptyOrUnrecognized
  | SentFrame string sid
  | Broadcasted string nat
  | LoopError py_error

record handler_result =
  state :: server_state
  emitted :: "emission list"
  printed :: "log_line list"
  raised :: "py_error option"

subsection \<open>The frame producer\<close>

text \<open>
  \<^verbatim>\<open>generate_test_image\<close> draws a 400 by 300 image with the current time on it and
  returns it base64-encoded with a name, a timestamp and its size. The PIL calls are
  taken to return.
\<close>

definition generate_test_image :: "lib \<Rightarrow> clock_reads \<Rightarrow> image_data" where
  "generate_test_image l rd =
     (let current_time = strftime_hms l (now_text rd);
          text = ''Socket.IO Test Image'' @ [CHR 0x0A] @ ''Time: '' @ current_time;
          img_base64 = png_base64 l text
      in \<lparr>img_name = ''test_image_'' @ str_int (py_int (time_time rd)) @ ''.png'',
          base_64_img = img_base64,
          timestamp = isoformat l (now_stamp rd),
          width = 400,
          height = 300\<rparr>)"

subsection \<open>Event handlers\<close>

text \<open>
  Each handler takes the state and the \<^verbatim>\<open>request.sid\<close> of the event and returns the
  new state, the messages it emitted (a handler's \<^verbatim>\<open>emit\<close> goes to the room of the
  requesting connection), the lines it printed and the exception it raised, if any.
  A handler that raises keeps the mutations it made before.
\<close>

definition handle_connect ::
  "lib \<Rightarrow> server_state \<Rightarrow> sid \<Rightarrow> string option \<Rightarrow> datetime \<Rightarrow> datetime \<Rightarrow> handler_result" where
  "handle_connect l st sid remote_addr now1 now2 =
     \<lparr>state = \<lparr>connected_clients =
                  AList.update sid \<lparr>connected_at = now1, ip = remote_addr\<rparr> (connected_clients st),
                client_subscriptions = AList.update sid {} (client_subscriptions st)\<rparr>,
      emitted = [Emit ''welcome''
                   (Welcome ''Connected to Socket.IO server'' (isoformat l now2) sid) sid],
      printed = [ClientConnected sid],
      raised = None\<rparr>"

definition handle_disconnect :: "server_state \<Rightarrow> sid \<Rightarrow> handler_result" where
  "handle_disconnect st sid =
     (let cc = (if dict_in sid (connected_clients st)
                then AList.delete sid (connected_clients st) else connected_clients st);
          cs = (if dict_in sid (client_subscriptions st)
                then AList.delete sid (client_subscriptions st) else client_subscriptions st)
      in \<lparr>state = \<lparr>connected_clients = cc, client_subscriptions = cs\<rparr>,
          emitted = [],
          printed = [ClientDisconnected sid],
          raised = None\<rparr>)"

text \<open>The set stored for a key that is present (\<^verbatim>\<open>client_subscriptions[sid]\<close>).\<close>

definition dict_get :: "(sid \<times> json set) list \<Rightarrow> sid \<Rightarrow> json set" where
  "dict_get d k = (case map_of d k of Some s \<Rightarrow> s | None \<Rightarrow> {})"

definition handle_subscribe :: "server_state \<Rightarrow> sid \<Rightarrow> json \<Rightarrow> handler_result" where
  "handle_subscribe st sid data =
     (case (case data of JStr s \<Rightarrow> Inr (JStr s) | _ \<Rightarrow> py_get data ''topic'' (JStr '''')) of
        Inl e \<Rightarrow> \<lparr>state = st, emitted = [], printed = [], raised = Some e\<rparr>
      | Inr topic \<Rightarrow>
          (let cs = (if \<not> dict_in sid (client_subscriptions st)
                     then AList.update sid {} (client_subscriptions st)
                     else client_subscriptions st)
           in if \<not> hashable topic
              then \<lparr>state = st\<lparr>client_subscriptions := cs\<rparr>,
                    emitted = [], printed = [], raised = Some TypeError\<rparr>
              else \<lparr>state = st\<lparr>client_subscriptions :=
                              AList.update sid (insert (set_key topic) (dict_get cs sid)) cs\<rparr>,
                    emitted = [Emit ''subscription_confirmed''
                                 (SubscriptionConfirmed topic ''subscribed'') sid],
                    printed = [ClientSubscribed sid topic],
                    raised = None\<rparr>))"



subsection \<open>The broadcast loop\<close>

text \<open>
  \<^verbatim>\<open>socketio.emit(event, payload, room=sid)\<close> belongs to the transport. The model
  takes it as a predicate on the message: \<open>True\<close> when the call returns, \<open>False\<close>
  when it raises.
\<close>

type_synonym transport = "emission \<Rightarrow> bool"

definition stream_topic :: json where
  "stream_topic = JStr ''stream_frames''"

text \<open>
  The loop iterates over the live dictionary. Each step of a dictionary iterator either
  yields the next entry or raises \<^verbatim>\<open>RuntimeError\<close> (the dictionary changed size, or
  its keys changed, since the iteration began); the end of the list is the end of the
  iteration. Which of these a step does once a handler thread has touched the table
  depends on the moment and on the interpreter's dictionary layout, so the model takes
  the steps as given. Nothing after a \<open>DictChanged\<close> is reached.
\<close>

datatype 'a next_result = Yield 'a | DictChanged

text \<open>
  The two iterations of one pass: over \<^verbatim>\<open>client_subscriptions.items()\<close> in the
  \<^verbatim>\<open>for\<close> loop, and over \<^verbatim>\<open>client_subscriptions.values()\<close> in the count of the
  last \<^verbatim>\<open>print\<close>. A yielded set is the set as it is when the loop tests it.
\<close>

record live_reads =
  items_iter :: "(sid \<times> json set) next_result list"
  values_iter :: "json set next_result list"

text \<open>What the pass reads when no handler thread runs during the pass.\<close>

definition quiet_reads :: "server_state \<Rightarrow> live_reads" where
  "quiet_reads st =
     \<lparr>items_iter = map Yield (client_subscriptions st),
      values_iter = map Yield (map snd (client_subscriptions st))\<rparr>"

text \<open>The entries an iteration hands out, up to its end or its first error.\<close>

fun yielded :: "'a next_result list \<Rightarrow> 'a list" where
  "yielded [] = []"
| "yielded (Yield x # rest) = x # yielded rest"
| "yielded (DictChanged # rest) = []"

record fan_result =
  sent :: "emission list"
  lines :: "log_line list"
  failure :: "py_error option"

text \<open>
  The \<^verbatim>\<open>for sid, subscriptions in client_subscriptions.items()\<close> loop. An exception
  of \<^verbatim>\<open>socketio.emit\<close> or of the iterator leaves the loop at once: the entries after
  it are not visited.
\<close>

fun fan_out ::
  "transport \<Rightarrow> string \<Rightarrow> payload \<Rightarrow> (sid \<times> json set) next_result list \<Rightarrow> fan_result" where
  "fan_out tr frame_name frame_data [] = \<lparr>sent = [], lines = [], failure = None\<rparr>"
| "fan_out tr frame_name frame_data (DictChanged # rest) =
     \<lparr>sent = [], lines = [], failure = Some RuntimeError\<rparr>"
| "fan_out tr frame_name frame_data (Yield (sid, subscriptions) # rest) =
     (if stream_topic \<in> subscriptions
      then (if tr (Emit ''stream_frames'' frame_data sid)
            then (let r = fan_out tr frame_name frame_data rest
                  in r\<lparr>sent := Emit ''stream_frames'' frame_data sid # sent r,
                       lines := SentFrame frame_name sid # lines r\<rparr>)
            else \<lparr>sent = [], lines = [], failure = Some SendFailed\<rparr>)
      else fan_out tr frame_name frame_data rest)"

text \<open>
  \<^verbatim>\<open>len([s for s in client_subscriptions.values() if 'stream_frames' in s])\<close>, the
  count printed after the loop.
\<close>

fun count_stream :: "json set next_result list \<Rightarrow> py_error + nat" where
  "count_stream [] = Inr 0"
| "count_stream (DictChanged # rest) = Inl RuntimeError"
| "count_stream (Yield s # rest) =
     (case count_stream rest of
        Inl e \<Rightarrow> Inl e
      | Inr n \<Rightarrow> Inr (if stream_topic \<in> s then Suc n else n))"

record tick_result =
  tick_emitted :: "emission list"
  tick_printed :: "log_line list"
  produced :: nat
  next_i :: int

text \<open>
  One pass through the body of \<^verbatim>\<open>while True\<close>. \<open>st\<close> is the shared state when the
  pass tests \<^verbatim>\<open>if connected_clients\<close>, \<open>lr\<close> is what its two iterations over the
  live table hand out. \<open>produced\<close> counts the calls of \<^verbatim>\<open>generate_test_image\<close>;
  \<open>next_i\<close> is the local counter \<^verbatim>\<open>i\<close> after the pass. Every exception raised
  inside the \<^verbatim>\<open>try\<close> skips the rest of the body, \<^verbatim>\<open>i += 1\<close> included; the
  \<^verbatim>\<open>except Exception\<close> clause prints it and the loop goes on.
\<close>

definition broadcast_tick ::
  "lib \<Rightarrow> clock_reads \<Rightarrow> transport \<Rightarrow> server_state \<Rightarrow> live_reads \<Rightarrow> int \<Rightarrow> tick_result" where
  "broadcast_tick l rd tr st lr i =
     (if connected_clients st \<noteq> []
      then (let img_data = generate_test_image l rd;
                frame_name = ''test_frame_'' @ str_int i;
                frame_data = SendFrames ''send_frames'' frame_name (base_64_img img_data);
                r = fan_out tr frame_name frame_data (items_iter lr)
            in case failure r of
                 Some e \<Rightarrow>
                   \<lparr>tick_emitted = sent r,
                    tick_printed = lines r @ [LoopError e],
                    produced = 1,
                    next_i = i\<rparr>
               | None \<Rightarrow>
                   (case count_stream (values_iter lr) of
                      Inl e \<Rightarrow>
                        \<lparr>tick_emitted = sent r,
                         tick_printed = lines r @ [LoopError e],
                         produced = 1,
                         next_i = i\<rparr>
                    | Inr n \<Rightarrow>
                        \<lparr>tick_emitted = sent r,
                         tick_printed = lines r @ [Broadcasted frame_name n],
                         produced = 1,
                         next_i = i + 1\<rparr>))
      else \<lparr>tick_emitted = [], tick_printed = [], produced = 0, next_i = i\<rparr>)"

text \<open>
  The loop never returns. Its model runs one pass for each element of a list that gives
  the clock reads, the transport, the shared state and the live reads of that pass, and
  returns the passes' results in order.
\<close>

fun broadcast_loop ::
  "lib \<Rightarrow> (clock_reads \<times> transport \<times> server_state \<times> live_reads) list \<Rightarrow> int
     \<Rightarrow> tick_result list" where
  "broadcast_loop l [] i = []"
| "broadcast_loop l ((rd, tr, st, lr) # rest) i =
     (let r = broadcast_tick l rd tr st lr i in r # broadcast_loop l rest (next_i r))"

definition broadcast_frames ::
  "lib \<Rightarrow> (clock_reads \<times> transport \<times> server_state \<times> live_reads) list \<Rightarrow> tick_result list" where
  "broadcast_frames l passes = broadcast_loop l passes 0"

subsection \<open>Sequences of events\<close>

datatype event =
    Connect sid "string option" datetime datetime
  | Disconnect sid
  | Subscribe sid json

fun dispatch :: "lib \<Rightarrow> server_state \<Rightarrow> event \<Rightarrow> handler_result" where
  "dispatch l st (Connect sid addr now1 now2) = handle_connect l st sid addr now1 now2"
| "dispatch l st (Disconnect sid) = handle_disconnect st sid"
| "dispatch l st (Subscribe sid data) = handle_subscribe st sid data"

fun run :: "lib \<Rightarrow> server_state \<Rightarrow> event list \<Rightarrow> server_state" where
  "run l st [] = st"
| "run l st (e # es) = run l (state (dispatch l st e)) es"

text \<open>Every subscribe event of the sequence comes from an id that is registered when it arrives.\<close>

fun subscribers_registered :: "lib \<Rightarrow> server_state \<Rightarrow> event list \<Rightarrow> bool" where
  "subscribers_registered l st [] = True"
| "subscribers_registered l st (e # es) =
     ((case e of Subscribe sid data \<Rightarrow> dict_in sid (connected_clients st) | _ \<Rightarrow> True)
      \<and> subscribers_registered l (state (dispatch l st e)) es)"

text \<open>The results of \<open>n\<close> subscribe events in a row with the same id and payload.\<close>

fun subscribe_times :: "nat \<Rightarrow> server_state \<Rightarrow> sid \<Rightarrow> json \<Rightarrow> handler_result list" where
  "subscribe_times 0 st sid data = []"
| "subscribe_times (Suc n) st sid data =
     (let r = handle_subscribe st sid data in r # subscribe_times n (state r) sid data)"

text \<open>
  The ids the broadcast loop selects, in the table's order, for a topic: the filter of
  the loop in \<^verbatim>\<open>broadcast_frames\<close>, which tests \<^verbatim>\<open>'stream_frames'\<close>.
\<close>

definition members_of :: "json \<Rightarrow> server_state \<Rightarrow> sid list" where
  "members_of topic st =
     map fst (filter (\<lambda>(sid, subscriptions). topic \<in> subscriptions) (client_subscriptions st))"

definition registry_ids :: "server_state \<Rightarrow> sid set" where
  "registry_ids st = fst ` set (connected_clients st)"

definition table_ids :: "server_state \<Rightarrow> sid set" where
  "table_ids st = fst ` set (client_subscriptions st)"

subsection \<open>Notions used to state the properties\<close>

text \<open>
  The message one pass sends to one connection: event \<^verbatim>\<open>stream_frames\<close>, payload
  \<^verbatim>\<open>{"title": "send_frames", "data": {"frame_name": ..., "frame_data": ...}}\<close>
  built from the counter and the produced image.
\<close>

definition frame_message :: "lib \<Rightarrow> clock_reads \<Rightarrow> int \<Rightarrow> sid \<Rightarrow> emission" where
  "frame_message l rd i sid =
     Emit ''stream_frames''
       (SendFrames ''send_frames'' (''test_frame_'' @ str_int i)
          (base_64_img (generate_test_image l rd))) sid"

definition stream_members :: "(sid \<times> json set) list \<Rightarrow> sid list" where
  "stream_members cs =
     map fst (filter (\<lambda>(sid, subscriptions). stream_topic \<in> subscriptions) cs)"

text \<open>The number a string of decimal digits denotes.\<close>

definition undigits :: "string \<Rightarrow> nat" where
  "undigits s = foldl (\<lambda>a c. 10 * a + (of_char c - 48)) 0 s"


subsection \<open>Sample inputs\<close>

definition test_lib :: lib where
  "test_lib = \<lparr>isoformat = (\<lambda>t. ''2024-01-01T00:00:00''),
               strftime_hms = (\<lambda>t. ''00:00:00''),
               png_base64 = (\<lambda>text. ''iVBORw0KGgo='')\<rparr>"

definition test_reads :: clock_reads where
  "test_reads = \<lparr>now_text = 1, time_time = 501 / 5, now_stamp = 2\<rparr>"

text \<open>A transport whose \<^verbatim>\<open>emit\<close> raises for one connection and returns for the others.\<close>

definition fails_for :: "sid \<Rightarrow> transport" where
  "fails_for x e = (case e of Emit ev p sid \<Rightarrow> sid \<noteq> x)"

definition two_clients :: server_state where
  "two_clients = run test_lib initial_state
     [Connect ''a'' (Some ''10.0.0.7'') 1 2, Connect ''b'' None 3 4,
      Subscribe ''b'' (JStr ''stream_frames'')]"

definition orphan_state :: server_state where
  "orphan_state = run test_lib initial_state [Subscribe ''a'' (JStr ''news'')]"

definition three_subscribers :: server_state where
  "three_subscribers = run test_lib initial_state
     [Connect ''a'' None 1 2, Subscribe ''a'' (JStr ''stream_frames''),
      Connect ''b'' None 3 4, Subscribe ''b'' (JObj [(''topic'', JStr ''stream_frames'')]),
      Connect ''c'' None 5 6, Subscribe ''c'' (JStr ''stream_frames'')]"

definition mixed_clients :: server_state where
  "mixed_clients = run test_lib initial_state
     [Connect ''a'' None 1 2, Subscribe ''a'' (JStr ''stream_frames''),
      Connect ''b'' None 3 4, Subscribe ''b'' (JStr ''news''),
      Connect ''c'' None 5 6, Subscribe ''c'' (JStr ''stream_frames''),
      Subscribe ''c'' (JStr ''news'')]"

definition orphan_stream :: server_state where
  "orphan_stream = run test_lib initial_state [Subscribe ''a'' (JStr ''stream_frames'')]"

definition later_reads :: clock_reads where
  "later_reads = \<lparr>now_text = 3, time_time = 1007 / 10, now_stamp = 4\<rparr>"

text \<open>
  Live reads of a pass during which a handler thread resizes the table: after the
  \<^verbatim>\<open>for\<close> loop was handed \<open>n\<close> entries, and during the count after the loop.
\<close>

definition resized_after :: "nat \<Rightarrow> server_state \<Rightarrow> live_reads" where
  "resized_after n st =
     \<lparr>items_iter = map Yield (take n (client_subscriptions st)) @ [DictChanged],
      values_iter = map Yield (map snd (client_subscriptions st))\<rparr>"

definition resized_in_count :: "server_state \<Rightarrow> live_reads" where
  "resized_in_count st =
     \<lparr>items_iter = map Yield (client_subscriptions st),
      values_iter = [DictChanged]\<rparr>"

section \<open>Properties\<close>

lemmas handler_defs = handle_connect_def handle_disconnect_def handle_subscribe_def
  dict_in_def dict_get_def initial_state_def registry_ids_def table_ids_def Let_def

lemmas tick_defs = broadcast_tick_def members_of_def stream_topic_def frame_message_def
  generate_test_image_def test_lib_def test_reads_def fails_for_def quiet_reads_def

subsection \<open>Keys of the two dictionaries\<close>

lemma dict_in_iff: "dict_in k d \<longleftrightarrow> k \<in> fst ` set d"
  by (simp add: dict_in_def map_of_eq_None_iff)

lemma keys_delete: "fst ` set (AList.delete k al) = fst ` set al - {k}"
  by (induction al) auto

lemma registry_ids_connect:
  "registry_ids (state (handle_connect l st sid addr n1 n2)) = insert sid (registry_ids st)"
  by (simp add: registry_ids_def handle_connect_def dom_update)

lemma table_ids_connect:
  "table_ids (state (handle_connect l st sid addr n1 n2)) = insert sid (table_ids st)"
  by (simp add: table_ids_def handle_connect_def dom_update)

lemma registry_ids_disconnect:
  "registry_ids (state (handle_disconnect st sid)) = registry_ids st - {sid}"
  by (auto simp: registry_ids_def handle_disconnect_def Let_def keys_delete dict_in_iff)

lemma table_ids_disconnect:
  "table_ids (state (handle_disconnect st sid)) = table_ids st - {sid}"
  by (auto simp: table_ids_def handle_disconnect_def Let_def keys_delete dict_in_iff)

lemma registry_ids_subscribe:
  "registry_ids (state (handle_subscribe st sid data)) = registry_ids st"
  by (simp add: registry_ids_def handle_subscribe_def Let_def split: sum.splits json.splits)

lemma table_ids_subscribe:
  "table_ids (state (handle_subscribe st sid data)) = table_ids st \<or>
   table_ids (state (handle_subscribe st sid data)) = insert sid (table_ids st)"
  by (auto simp: table_ids_def handle_subscribe_def Let_def dom_update dict_in_iff
      split: sum.splits json.splits)

lemma table_ids_subscribe_in:
  "sid \<in> table_ids st \<Longrightarrow> table_ids (state (handle_subscribe st sid data)) = table_ids st"
  using table_ids_subscribe[of st sid data] by auto

lemma run_ids_subset:
  "registry_ids st \<subseteq> table_ids st \<Longrightarrow> registry_ids (run l st evs) \<subseteq> table_ids (run l st evs)"
proof (induction evs arbitrary: st)
  case Nil
  then show ?case by simp
next
  case (Cons e evs)
  have "registry_ids (state (dispatch l st e)) \<subseteq> table_ids (state (dispatch l st e))"
  proof (cases e)
    case (Connect sid addr n1 n2)
    then show ?thesis
      using Cons.prems by (auto simp: registry_ids_connect table_ids_connect)
  next
    case (Disconnect sid)
    then show ?thesis
      using Cons.prems by (auto simp: registry_ids_disconnect table_ids_disconnect)
  next
    case (Subscribe sid data)
    then show ?thesis
      using Cons.prems table_ids_subscribe[of st sid data]
      by (auto simp: registry_ids_subscribe)
  qed
  then show ?case using Cons.IH by simp
qed

lemma run_ids_equal:
  "registry_ids st = table_ids st \<Longrightarrow> subscribers_registered l st evs \<Longrightarrow>
   registry_ids (run l st evs) = table_ids (run l st evs)"
proof (induction evs arbitrary: st)
  case Nil
  then show ?case by simp
next
  case (Cons e evs)
  have "registry_ids (state (dispatch l st e)) = table_ids (state (dispatch l st e))"
  proof (cases e)
    case (Connect sid addr n1 n2)
    then show ?thesis
      using Cons.prems by (simp add: registry_ids_connect table_ids_connect)
  next
    case (Disconnect sid)
    then show ?thesis
      using Cons.prems by (simp add: registry_ids_disconnect table_ids_disconnect)
  next
    case (Subscribe sid data)
    with Cons.prems have "sid \<in> table_ids st"
      by (simp add: dict_in_iff registry_ids_def)
    then show ?thesis
      using Subscribe Cons.prems(1)
      by (simp add: registry_ids_subscribe table_ids_subscribe_in)
  qed
  moreover have "subscribers_registered l (state (dispatch l st e)) evs"
    using Cons.prems(2) by simp
  ultimately show ?case using Cons.IH by simp
qed

text \<open>The handlers keep the keys of both dictionaries distinct.\<close>

lemma dict_ok_dispatch: "dict_ok st \<Longrightarrow> dict_ok (state (dispatch l st e))"
proof (cases e)
  case (Connect sid addr n1 n2)
  assume "dict_ok st"
  then show ?thesis
    using Connect by (simp add: dict_ok_def handle_connect_def distinct_update)
next
  case (Disconnect sid)
  assume "dict_ok st"
  then show ?thesis
    using Disconnect by (simp add: dict_ok_def handle_disconnect_def Let_def distinct_delete)
next
  case (Subscribe sid data)
  assume "dict_ok st"
  then show ?thesis
    using Subscribe
    by (simp add: dict_ok_def handle_subscribe_def Let_def distinct_update
        split: sum.splits json.splits)
qed

lemma dict_ok_run: "dict_ok st \<Longrightarrow> dict_ok (run l st evs)"
  by (induction evs arbitrary: st) (simp_all add: dict_ok_dispatch)

lemma dict_ok_initial: "dict_ok initial_state"
  by (simp add: dict_ok_def initial_state_def)

text \<open>
  C1, as the code has it. From the empty dictionaries of process start, after every
  sequence of connect, disconnect and subscribe events each id of the registry has an
  entry in the subscription table; the two sets of ids are equal when every subscribe
  event of the sequence came from an id that was registered when it arrived. (A
  subscribe from an unregistered id creates a table entry by the handler's own test
  \<^verbatim>\<open>if sid not in client_subscriptions\<close>.)
\<close>

theorem C1_registry_within_table:
  "registry_ids (run l initial_state evs) \<subseteq> table_ids (run l initial_state evs) \<and>
   (subscribers_registered l initial_state evs \<longrightarrow>
      registry_ids (run l initial_state evs) = table_ids (run l initial_state evs))"
proof -
  have "registry_ids initial_state = table_ids initial_state"
    by (simp add: registry_ids_def table_ids_def initial_state_def)
  then show ?thesis
    using run_ids_subset[of initial_state l evs] run_ids_equal[of initial_state l evs] by simp
qed

theorem C1_registry_within_table_witness:
  "subscribers_registered test_lib initial_state
     [Connect ''a'' None 1 2, Subscribe ''a'' (JStr ''stream_frames''),
      Connect ''b'' (Some ''10.0.0.7'') 3 4, Disconnect ''a''] \<and>
   registry_ids (run test_lib initial_state
     [Connect ''a'' None 1 2, Subscribe ''a'' (JStr ''stream_frames''),
      Connect ''b'' (Some ''10.0.0.7'') 3 4, Disconnect ''a'']) = {''b''} \<and>
   table_ids (run test_lib initial_state
     [Connect ''a'' None 1 2, Subscribe ''a'' (JStr ''stream_frames''),
      Connect ''b'' (Some ''10.0.0.7'') 3 4, Disconnect ''a'']) = {''b''}"
  using C1_registry_within_table [of test_lib
     "[Connect ''a'' None 1 2, Subscribe ''a'' (JStr ''stream_frames''),
       Connect ''b'' (Some ''10.0.0.7'') 3 4, Disconnect ''a'']"]
  by (simp add: handler_defs)

text \<open>
  C1 as stated fails: one subscribe event from an id that never connected leaves that id
  in the subscription table and not in the registry.
\<close>

theorem C1_orphan_subscription_counterexample:
  "table_ids (run test_lib initial_state [Subscribe ''a'' (JStr ''news'')]) = {''a''} \<and>
   registry_ids (run test_lib initial_state [Subscribe ''a'' (JStr ''news'')]) = {}"
  by (simp add: handler_defs)

subsection \<open>Handlers touch the entries of their own id\<close>

text \<open>
  C10. For distinct ids \<open>a\<close> and \<open>b\<close>, a subscribe event from \<open>a\<close> (whatever its
  payload, also one that makes the handler raise) and a disconnect event of \<open>a\<close> leave
  the registry entry and the subscription set of \<open>b\<close> as they were.
\<close>

theorem C10_other_ids_untouched:
  assumes "a \<noteq> b"
  shows "map_of (connected_clients (state (handle_subscribe st a data))) b
           = map_of (connected_clients st) b \<and>
         map_of (client_subscriptions (state (handle_subscribe st a data))) b
           = map_of (client_subscriptions st) b \<and>
         map_of (connected_clients (state (handle_disconnect st a))) b
           = map_of (connected_clients st) b \<and>
         map_of (client_subscriptions (state (handle_disconnect st a))) b
           = map_of (client_subscriptions st) b"
proof -
  have ne: "b \<noteq> a" using assms by simp
  have s1: "map_of (connected_clients (state (handle_subscribe st a data))) b
           = map_of (connected_clients st) b"
    by (simp add: handle_subscribe_def Let_def split: sum.splits json.splits)
  have s2: "map_of (client_subscriptions (state (handle_subscribe st a data))) b
           = map_of (client_subscriptions st) b"
    using ne by (simp add: handle_subscribe_def Let_def update_conv' split: sum.splits json.splits)
  have d1: "map_of (connected_clients (state (handle_disconnect st a))) b
           = map_of (connected_clients st) b"
    using ne by (simp add: handle_disconnect_def Let_def)
  have d2: "map_of (client_subscriptions (state (handle_disconnect st a))) b
           = map_of (client_subscriptions st) b"
    using ne by (simp add: handle_disconnect_def Let_def)
  from s1 s2 d1 d2 show ?thesis by simp
qed

theorem C10_other_ids_untouched_witness:
  "''a'' \<noteq> ''b'' \<and>
   map_of (connected_clients (state (handle_subscribe two_clients ''a'' (JStr ''news'')))) ''b''
     = Some \<lparr>connected_at = 3, ip = None\<rparr> \<and>
   map_of (client_subscriptions (state (handle_subscribe two_clients ''a'' (JStr ''news'')))) ''b''
     = Some {JStr ''stream_frames''} \<and>
   map_of (connected_clients (state (handle_disconnect two_clients ''a''))) ''b''
     = Some \<lparr>connected_at = 3, ip = None\<rparr> \<and>
   map_of (client_subscriptions (state (handle_disconnect two_clients ''a''))) ''b''
     = Some {JStr ''stream_frames''}"
  using C10_other_ids_untouched [of "''a''" "''b''" two_clients "JStr ''news''"]
  by (simp add: two_clients_def handler_defs)

subsection \<open>Disconnect of an id that is not registered\<close>

text \<open>
  C9, as the code has it. For an id that is not in the registry the disconnect handler
  raises nothing, emits nothing and leaves the registry as it was; it deletes the id's
  entry of the subscription table when there is one (the handler tests the two
  dictionaries separately), and changes nothing at all when there is none.
\<close>

theorem C9_disconnect_unregistered:
  assumes "\<not> dict_in sid (connected_clients st)"
  shows "raised (handle_disconnect st sid) = None \<and>
         emitted (handle_disconnect st sid) = [] \<and>
         connected_clients (state (handle_disconnect st sid)) = connected_clients st \<and>
         client_subscriptions (state (handle_disconnect st sid))
           = AList.delete sid (client_subscriptions st) \<and>
         (\<not> dict_in sid (client_subscriptions st) \<longrightarrow> state (handle_disconnect st sid) = st)"
  using assms by (simp add: handle_disconnect_def Let_def dict_in_iff)

theorem C9_disconnect_unregistered_witness:
  "\<not> dict_in ''a'' (connected_clients orphan_state) \<and>
   raised (handle_disconnect orphan_state ''a'') = None \<and>
   connected_clients (state (handle_disconnect orphan_state ''a'')) = [] \<and>
   client_subscriptions (state (handle_disconnect orphan_state ''a'')) = [] \<and>
   \<not> dict_in ''b'' (connected_clients orphan_state) \<and>
   \<not> dict_in ''b'' (client_subscriptions orphan_state) \<and>
   state (handle_disconnect orphan_state ''b'') = orphan_state"
  using C9_disconnect_unregistered [of "''a''" orphan_state]
    C9_disconnect_unregistered [of "''b''" orphan_state]
  by (simp add: orphan_state_def handler_defs)

text \<open>
  C9 as stated fails: after one subscribe event from an id that never connected, the id
  is absent from the registry, and its disconnect removes its subscription entry.
\<close>

theorem C9_table_changed_counterexample:
  "\<not> dict_in ''a'' (connected_clients orphan_state) \<and>
   client_subscriptions orphan_state = [(''a'', {JStr ''news''})] \<and>
   client_subscriptions (state (handle_disconnect orphan_state ''a'')) = []"
  by (simp add: orphan_state_def handler_defs)

subsection \<open>A second connect with a registered id\<close>

text \<open>
  C3, as the code has it. A connect event whose id is already in the registry is accepted:
  the handler raises nothing, puts the new connect time and origin address in place of
  the old record (at the same position, so the id is still registered once), resets the
  id's subscription set to the empty set and sends the welcome message again.
\<close>

theorem C3_second_connect_overwrites:
  assumes "dict_in sid (connected_clients st)"
  shows "raised (handle_connect l st sid addr now1 now2) = None \<and>
         map_of (connected_clients (state (handle_connect l st sid addr now1 now2))) sid
           = Some \<lparr>connected_at = now1, ip = addr\<rparr> \<and>
         map_of (client_subscriptions (state (handle_connect l st sid addr now1 now2))) sid
           = Some {} \<and>
         map fst (connected_clients (state (handle_connect l st sid addr now1 now2)))
           = map fst (connected_clients st) \<and>
         emitted (handle_connect l st sid addr now1 now2)
           = [Emit ''welcome''
                (Welcome ''Connected to Socket.IO server'' (isoformat l now2) sid) sid]"
  using assms by (simp add: handle_connect_def update_conv' update_keys dict_in_iff)

theorem C3_second_connect_overwrites_witness:
  "dict_in ''b'' (connected_clients two_clients) \<and>
   raised (handle_connect test_lib two_clients ''b'' (Some ''10.0.0.9'') 8 9) = None \<and>
   state (handle_connect test_lib two_clients ''b'' (Some ''10.0.0.9'') 8 9) =
     \<lparr>connected_clients = [(''a'', \<lparr>connected_at = 1, ip = Some ''10.0.0.7''\<rparr>),
                            (''b'', \<lparr>connected_at = 8, ip = Some ''10.0.0.9''\<rparr>)],
      client_subscriptions = [(''a'', {}), (''b'', {})]\<rparr>"
  using C3_second_connect_overwrites [of "''b''" two_clients test_lib "Some ''10.0.0.9''" 8 9]
  by (simp add: two_clients_def handler_defs)

text \<open>
  C3 as stated fails: id \<open>b\<close> is registered with connect time 3, no address and the
  subscription set \<open>{stream_frames}\<close>; a second connect of \<open>b\<close> raises nothing and
  leaves connect time 8, the new address and an empty subscription set.
\<close>

theorem C3_duplicate_accepted_counterexample:
  "dict_in ''b'' (connected_clients two_clients) \<and>
   map_of (connected_clients two_clients) ''b'' = Some \<lparr>connected_at = 3, ip = None\<rparr> \<and>
   map_of (client_subscriptions two_clients) ''b'' = Some {JStr ''stream_frames''} \<and>
   raised (handle_connect test_lib two_clients ''b'' (Some ''10.0.0.9'') 8 9) = None \<and>
   map_of (connected_clients
     (state (handle_connect test_lib two_clients ''b'' (Some ''10.0.0.9'') 8 9))) ''b''
       = Some \<lparr>connected_at = 8, ip = Some ''10.0.0.9''\<rparr> \<and>
   map_of (client_subscriptions
     (state (handle_connect test_lib two_clients ''b'' (Some ''10.0.0.9'') 8 9))) ''b''
       = Some {}"
  by (simp add: two_clients_def handler_defs)

subsection \<open>Sample values\<close>

lemma str_int_0: "str_int 0 = ''0''"
  by code_simp

lemma str_int_1: "str_int 1 = ''1''"
  by code_simp

lemma py_int_sample: "py_int (501 / 5) = 100" "py_int (1007 / 10) = 100"
  by code_simp+

lemma str_int_100: "str_int 100 = ''100''"
  by code_simp

subsection \<open>One pass of the broadcast loop\<close>

lemma yielded_map_Yield: "yielded (map Yield xs) = xs"
  by (induction xs) simp_all

lemma no_change_map_Yield: "DictChanged \<notin> set (map Yield xs)"
  by (induction xs) simp_all

lemma yielded_append_Yield: "yielded (map Yield xs @ rest) = xs @ yielded rest"
  by (induction xs) simp_all

lemma fan_out_sent:
  "sent (fan_out tr n fd steps) =
     map (Emit ''stream_frames'' fd)
       (takeWhile (\<lambda>sid. tr (Emit ''stream_frames'' fd sid)) (stream_members (yielded steps)))"
  by (induction tr n fd steps rule: fan_out.induct) (simp_all add: stream_members_def Let_def)

lemma fan_out_lines:
  "lines (fan_out tr n fd steps) =
     map (SentFrame n)
       (takeWhile (\<lambda>sid. tr (Emit ''stream_frames'' fd sid)) (stream_members (yielded steps)))"
  by (induction tr n fd steps rule: fan_out.induct) (simp_all add: stream_members_def Let_def)

lemma fan_out_failure:
  "failure (fan_out tr n fd steps) =
     (if \<not> (\<forall>sid \<in> set (stream_members (yielded steps)). tr (Emit ''stream_frames'' fd sid))
      then Some SendFailed
      else if DictChanged \<in> set steps then Some RuntimeError else None)"
proof (induction steps)
  case Nil
  then show ?case by (simp add: stream_members_def)
next
  case (Cons x steps)
  show ?case
  proof (cases x)
    case DictChanged
    then show ?thesis by (simp add: stream_members_def)
  next
    case (Yield p)
    obtain sid subs where p: "p = (sid, subs)" by (cases p)
    show ?thesis
    proof (cases "stream_topic \<in> subs")
      case True
      then show ?thesis
        using Cons.IH Yield p by (auto simp: stream_members_def Let_def)
    next
      case False
      then show ?thesis
        using Cons.IH Yield p by (auto simp: stream_members_def)
    qed
  qed
qed

lemma count_stream_eq:
  "count_stream steps =
     (if DictChanged \<in> set steps then Inl RuntimeError
      else Inr (length (filter (\<lambda>s. stream_topic \<in> s) (yielded steps))))"
proof (induction steps)
  case Nil
  then show ?case by simp
next
  case (Cons x steps)
  then show ?case by (cases x) simp_all
qed

lemma members_of_stream: "members_of stream_topic st = stream_members (client_subscriptions st)"
  by (simp add: members_of_def stream_members_def)

lemma tick_emitted_eq:
  "connected_clients st \<noteq> [] \<Longrightarrow>
   tick_emitted (broadcast_tick l rd tr st lr i) =
     map (frame_message l rd i)
       (takeWhile (\<lambda>sid. tr (frame_message l rd i sid))
          (stream_members (yielded (items_iter lr))))"
  by (simp add: broadcast_tick_def Let_def fan_out_sent frame_message_def
      split: option.splits sum.splits)

lemma tick_next_i:
  "next_i (broadcast_tick l rd tr st lr i) =
     (if connected_clients st \<noteq> [] \<and>
         DictChanged \<notin> set (items_iter lr) \<and>
         DictChanged \<notin> set (values_iter lr) \<and>
         (\<forall>sid \<in> set (stream_members (yielded (items_iter lr))). tr (frame_message l rd i sid))
      then i + 1 else i)"
  by (simp add: broadcast_tick_def Let_def fan_out_failure count_stream_eq frame_message_def
      split: option.splits sum.splits)

lemma tick_send_failed_log:
  "connected_clients st \<noteq> [] \<Longrightarrow>
   \<not> (\<forall>sid \<in> set (stream_members (yielded (items_iter lr))). tr (frame_message l rd i sid)) \<Longrightarrow>
   last (tick_printed (broadcast_tick l rd tr st lr i)) = LoopError SendFailed"
  by (simp add: broadcast_tick_def Let_def fan_out_failure frame_message_def)

lemma set_stream_members:
  "sid \<in> set (stream_members cs) \<longleftrightarrow> (\<exists>s. (sid, s) \<in> set cs \<and> stream_topic \<in> s)"
  by (force simp: stream_members_def)

text \<open>
  C6. A pass of the loop that finds the registry empty does not call the frame producer,
  sends nothing, prints nothing and leaves the counter as it was, whatever the
  subscription table holds and whatever handler threads do to it meanwhile.
\<close>

theorem C6_empty_registry_skips:
  assumes "connected_clients st = []"
  shows "produced (broadcast_tick l rd tr st lr i) = 0 \<and>
         tick_emitted (broadcast_tick l rd tr st lr i) = [] \<and>
         tick_printed (broadcast_tick l rd tr st lr i) = [] \<and>
         next_i (broadcast_tick l rd tr st lr i) = i"
  using assms by (simp add: broadcast_tick_def)

theorem C6_empty_registry_skips_witness:
  "connected_clients orphan_stream = [] \<and>
   client_subscriptions orphan_stream = [(''a'', {JStr ''stream_frames''})] \<and>
   produced (broadcast_tick test_lib test_reads (\<lambda>e. True) orphan_stream
      (quiet_reads orphan_stream) 0) = 0 \<and>
   tick_emitted (broadcast_tick test_lib test_reads (\<lambda>e. True) orphan_stream
      (quiet_reads orphan_stream) 0) = []"
  using C6_empty_registry_skips [of orphan_stream test_lib test_reads "\<lambda>e. True"
      "quiet_reads orphan_stream" 0]
  by (simp add: orphan_stream_def handler_defs)

text \<open>
  C7, as the code has it. In a pass that produces a frame, every message sent is the
  \<^verbatim>\<open>stream_frames\<close> event with payload
  \<^verbatim>\<open>{title: "send_frames", data: {frame_name, frame_data}}\<close>, addressed to a
  connection that the loop was handed with \<^verbatim>\<open>stream_frames\<close> in its subscription
  set. When no handler thread changes the table while the loop iterates over it and no
  send of the pass raises, the messages sent are exactly one for each connection whose
  subscription set contains \<^verbatim>\<open>stream_frames\<close>, in the table's order.
\<close>

theorem C7_frames_to_stream_subscribers:
  assumes "connected_clients st \<noteq> []"
  shows "set (tick_emitted (broadcast_tick l rd tr st lr i))
           \<subseteq> frame_message l rd i `
               {sid. \<exists>s. (sid, s) \<in> set (yielded (items_iter lr)) \<and> JStr ''stream_frames'' \<in> s} \<and>
         (items_iter lr = map Yield (client_subscriptions st) \<and>
          (\<forall>sid \<in> set (members_of (JStr ''stream_frames'') st). tr (frame_message l rd i sid)) \<longrightarrow>
            tick_emitted (broadcast_tick l rd tr st lr i)
              = map (frame_message l rd i) (members_of (JStr ''stream_frames'') st))"
proof -
  let ?ms = "stream_members (yielded (items_iter lr))"
  let ?ok = "\<lambda>sid. tr (frame_message l rd i sid)"
  have e: "tick_emitted (broadcast_tick l rd tr st lr i)
             = map (frame_message l rd i) (takeWhile ?ok ?ms)"
    using assms by (rule tick_emitted_eq)
  have "set (takeWhile ?ok ?ms) \<subseteq> set ?ms"
    by (auto dest: set_takeWhileD)
  then have a: "set (tick_emitted (broadcast_tick l rd tr st lr i))
           \<subseteq> frame_message l rd i `
               {sid. \<exists>s. (sid, s) \<in> set (yielded (items_iter lr)) \<and> JStr ''stream_frames'' \<in> s}"
    unfolding e using set_stream_members[of _ "yielded (items_iter lr)"]
    by (auto simp: stream_topic_def)
  have b: "tick_emitted (broadcast_tick l rd tr st lr i)
             = map (frame_message l rd i) (members_of stream_topic st)"
    if q: "items_iter lr = map Yield (client_subscriptions st)"
      and ok: "\<forall>sid \<in> set (members_of stream_topic st). ?ok sid"
  proof -
    from q have ms: "?ms = members_of stream_topic st"
      by (simp add: yielded_map_Yield members_of_stream)
    from ok have "takeWhile ?ok (members_of stream_topic st) = members_of stream_topic st"
      by simp
    with e ms show ?thesis by simp
  qed
  from a b show ?thesis
    unfolding stream_topic_def by blast
qed

theorem C7_frames_to_stream_subscribers_witness:
  "connected_clients mixed_clients \<noteq> [] \<and>
   client_subscriptions mixed_clients =
     [(''a'', {JStr ''stream_frames''}), (''b'', {JStr ''news''}),
      (''c'', {JStr ''news'', JStr ''stream_frames''})] \<and>
   items_iter (quiet_reads mixed_clients) = map Yield (client_subscriptions mixed_clients) \<and>
   members_of (JStr ''stream_frames'') mixed_clients = [''a'', ''c''] \<and>
   tick_emitted (broadcast_tick test_lib test_reads (\<lambda>e. True) mixed_clients
      (quiet_reads mixed_clients) 1) =
     [Emit ''stream_frames'' (SendFrames ''send_frames'' ''test_frame_1'' ''iVBORw0KGgo='') ''a'',
      Emit ''stream_frames'' (SendFrames ''send_frames'' ''test_frame_1'' ''iVBORw0KGgo='') ''c'']"
  using C7_frames_to_stream_subscribers [of mixed_clients test_lib test_reads "\<lambda>e. True"
      "quiet_reads mixed_clients" 1]
  by (auto simp add: mixed_clients_def handler_defs tick_defs str_int_1)

text \<open>
  C7 as stated fails, in two ways. The pass produces a frame and \<open>c\<close> is subscribed to
  \<^verbatim>\<open>stream_frames\<close>; when the send to \<open>a\<close> raises, nothing is sent to \<open>c\<close>;
  when no send raises and the table is resized after the loop was handed \<open>a\<close>, the
  iterator raises and again nothing is sent to \<open>c\<close>.
\<close>

theorem C7_subscriber_not_reached_counterexample:
  "connected_clients mixed_clients \<noteq> [] \<and>
   map_of (client_subscriptions mixed_clients) ''c'' = Some {JStr ''news'', JStr ''stream_frames''} \<and>
   fails_for ''a'' (frame_message test_lib test_reads 0 ''c'') \<and>
   produced (broadcast_tick test_lib test_reads (fails_for ''a'') mixed_clients
      (quiet_reads mixed_clients) 0) = 1 \<and>
   tick_emitted (broadcast_tick test_lib test_reads (fails_for ''a'') mixed_clients
      (quiet_reads mixed_clients) 0) = [] \<and>
   produced (broadcast_tick test_lib test_reads (\<lambda>e. True) mixed_clients
      (resized_after 1 mixed_clients) 0) = 1 \<and>
   tick_emitted (broadcast_tick test_lib test_reads (\<lambda>e. True) mixed_clients
      (resized_after 1 mixed_clients) 0) =
     [Emit ''stream_frames'' (SendFrames ''send_frames'' ''test_frame_0'' ''iVBORw0KGgo='') ''a'']"
  by (simp add: mixed_clients_def handler_defs tick_defs str_int_0 resized_after_def)

text \<open>
  C2, as the code has it. When the send to a member raises, the members that the loop
  was handed before it have been sent the frame and no member after it is sent anything
  in this pass; the error is printed, the counter is not advanced, and the loop goes on
  with its next pass. This holds whatever handler threads do during the pass.
\<close>

theorem C2_send_failure_aborts_tick:
  assumes "connected_clients st \<noteq> []"
    and "stream_members (yielded (items_iter lr)) = before @ m # after"
    and "\<forall>sid \<in> set before. tr (frame_message l rd i sid)"
    and "\<not> tr (frame_message l rd i m)"
  shows "tick_emitted (broadcast_tick l rd tr st lr i) = map (frame_message l rd i) before \<and>
         last (tick_printed (broadcast_tick l rd tr st lr i)) = LoopError SendFailed \<and>
         next_i (broadcast_tick l rd tr st lr i) = i \<and>
         broadcast_loop l ((rd, tr, st, lr) # rest) i =
           broadcast_tick l rd tr st lr i # broadcast_loop l rest i"
proof -
  let ?ok = "\<lambda>sid. tr (frame_message l rd i sid)"
  let ?ms = "stream_members (yielded (items_iter lr))"
  have tw: "takeWhile ?ok ?ms = before"
    using assms(2,3,4) by simp
  have e: "tick_emitted (broadcast_tick l rd tr st lr i) = map (frame_message l rd i) before"
    using assms(1) tw by (simp add: tick_emitted_eq)
  have nall: "\<not> (\<forall>sid \<in> set ?ms. ?ok sid)"
    using assms(2,4) by auto
  have p: "last (tick_printed (broadcast_tick l rd tr st lr i)) = LoopError SendFailed"
    using assms(1) nall by (rule tick_send_failed_log)
  have n: "next_i (broadcast_tick l rd tr st lr i) = i"
    using nall by (simp add: tick_next_i)
  have c: "broadcast_loop l ((rd, tr, st, lr) # rest) i =
           broadcast_tick l rd tr st lr i # broadcast_loop l rest i"
    using n by (simp add: Let_def)
  from e p n c show ?thesis by simp
qed

theorem C2_send_failure_aborts_tick_witness:
  "connected_clients three_subscribers \<noteq> [] \<and>
   members_of stream_topic three_subscribers = [''a''] @ ''b'' # [''c''] \<and>
   stream_members (yielded (items_iter (quiet_reads three_subscribers)))
     = [''a''] @ ''b'' # [''c''] \<and>
   fails_for ''b'' (frame_message test_lib test_reads 0 ''a'') \<and>
   \<not> fails_for ''b'' (frame_message test_lib test_reads 0 ''b'') \<and>
   tick_emitted (broadcast_tick test_lib test_reads (fails_for ''b'') three_subscribers
      (quiet_reads three_subscribers) 0) =
     [Emit ''stream_frames'' (SendFrames ''send_frames'' ''test_frame_0'' ''iVBORw0KGgo='') ''a''] \<and>
   next_i (broadcast_tick test_lib test_reads (fails_for ''b'') three_subscribers
      (quiet_reads three_subscribers) 0) = 0"
  using C2_send_failure_aborts_tick [of three_subscribers "quiet_reads three_subscribers"
      "[''a'']" "''b''" "[''c'']" "fails_for ''b''" test_lib test_reads 0 "[]"]
  by (simp add: three_subscribers_def handler_defs tick_defs str_int_0 stream_members_def)

text \<open>
  C2 as stated fails: \<open>a\<close>, \<open>b\<close> and \<open>c\<close> are subscribed, the send to \<open>b\<close>
  raises, a send to \<open>c\<close> would return, and \<open>c\<close> is sent nothing.
\<close>

theorem C2_later_member_skipped_counterexample:
  "members_of stream_topic three_subscribers = [''a'', ''b'', ''c''] \<and>
   \<not> fails_for ''b'' (frame_message test_lib test_reads 0 ''b'') \<and>
   fails_for ''b'' (frame_message test_lib test_reads 0 ''c'') \<and>
   frame_message test_lib test_reads 0 ''c''
     \<notin> set (tick_emitted (broadcast_tick test_lib test_reads (fails_for ''b'') three_subscribers
              (quiet_reads three_subscribers) 0))"
  by (simp add: three_subscribers_def handler_defs tick_defs str_int_0)

subsection \<open>Direct image requests\<close>




subsection \<open>Repeated subscription\<close>

lemma subscribe_object_form:
  "map_of kvs ''topic'' = Some (JStr t) \<Longrightarrow>
   handle_subscribe st sid (JObj kvs) = handle_subscribe st sid (JStr t)"
  by (simp add: handle_subscribe_def)

lemma subscribe_string_result:
  "handle_subscribe st sid (JStr t) =
     \<lparr>state = st\<lparr>client_subscriptions :=
         AList.update sid (insert (JStr t) (dict_get (client_subscriptions st) sid))
           (client_subscriptions st)\<rparr>,
      emitted = [Emit ''subscription_confirmed'' (SubscriptionConfirmed (JStr t) ''subscribed'') sid],
      printed = [ClientSubscribed sid (JStr t)],
      raised = None\<rparr>"
  by (auto simp: handle_subscribe_def Let_def dict_get_def dict_in_def update_conv')

lemma subscribe_twice:
  "handle_subscribe (state (handle_subscribe st sid (JStr t))) sid (JStr t)
     = handle_subscribe st sid (JStr t)"
  by (simp add: subscribe_string_result dict_get_def update_conv')

lemma subscribe_times_all:
  "r \<in> set (subscribe_times n st sid (JStr t)) \<Longrightarrow> r = handle_subscribe st sid (JStr t)"
proof (induction n arbitrary: st)
  case 0
  then show ?case by simp
next
  case (Suc n)
  let ?r1 = "handle_subscribe st sid (JStr t)"
  from Suc.prems have "r = ?r1 \<or> r \<in> set (subscribe_times n (state ?r1) sid (JStr t))"
    by (simp add: Let_def)
  then show ?case
  proof
    assume "r = ?r1" then show ?thesis .
  next
    assume "r \<in> set (subscribe_times n (state ?r1) sid (JStr t))"
    then have "r = handle_subscribe (state ?r1) sid (JStr t)" by (rule Suc.IH)
    then show ?thesis by (simp add: subscribe_twice)
  qed
qed

lemma length_subscribe_times: "length (subscribe_times n st sid d) = n"
  by (induction n arbitrary: st) (simp_all add: Let_def)

lemma count_members:
  "distinct (map fst cs) \<Longrightarrow> map_of cs k = Some S \<Longrightarrow>
   count_list (map fst (filter (\<lambda>(sid, subscriptions). topic \<in> subscriptions) cs)) k
     = (if topic \<in> S then 1 else 0)"
proof (induction cs)
  case Nil
  then show ?case by simp
next
  case (Cons p cs)
  obtain k' S' where p: "p = (k', S')" by (cases p)
  show ?case
  proof (cases "k' = k")
    case True
    with Cons.prems p have S: "S' = S" and notin: "k \<notin> fst ` set cs" by auto
    have "count_list (map fst (filter (\<lambda>(sid, subscriptions). topic \<in> subscriptions) cs)) k = 0"
      using notin by (auto simp: count_list_0_iff)
    then show ?thesis using True p S by simp
  next
    case False
    with Cons.prems p have "distinct (map fst cs)" "map_of cs k = Some S" by auto
    then have "count_list (map fst (filter (\<lambda>(sid, subscriptions). topic \<in> subscriptions) cs)) k
       = (if topic \<in> S then 1 else 0)" by (rule Cons.IH)
    then show ?thesis using False p by simp
  qed
qed

lemma subscribed_once:
  assumes "distinct (map fst (client_subscriptions st))"
  shows "count_list (members_of (JStr t) (state (handle_subscribe st sid (JStr t)))) sid = 1"
proof -
  let ?cs = "client_subscriptions (state (handle_subscribe st sid (JStr t)))"
  have d: "distinct (map fst ?cs)"
    using assms by (simp add: subscribe_string_result distinct_update)
  have m: "map_of ?cs sid = Some (insert (JStr t) (dict_get (client_subscriptions st) sid))"
    by (simp add: subscribe_string_result update_conv')
  from count_members[OF d m, of "JStr t"] show ?thesis
    by (simp add: members_of_def)
qed

lemma subscribe_times_object_form:
  "map_of kvs ''topic'' = Some (JStr t) \<Longrightarrow>
   subscribe_times n st sid (JObj kvs) = subscribe_times n st sid (JStr t)"
  by (induction n arbitrary: st) (simp_all add: subscribe_object_form)

text \<open>
  C5. For a topic string \<open>t\<close>, sent as a bare string or as an object with the field
  \<^verbatim>\<open>topic\<close>, each of \<open>n\<close> subscribe events in a row from one id returns without
  an exception, emits the confirmation message, and leaves the state that the first one
  leaves; in that state the id is selected once for \<open>t\<close> (the table's keys being
  distinct, as those of a dictionary are).
\<close>

theorem C5_subscribe_idempotent:
  assumes "data = JStr t \<or> (\<exists>kvs. data = JObj kvs \<and> map_of kvs ''topic'' = Some (JStr t))"
  shows "length (subscribe_times n st sid data) = n \<and>
         (\<forall>r \<in> set (subscribe_times n st sid data).
            state r = state (handle_subscribe st sid data) \<and>
            raised r = None \<and>
            emitted r = [Emit ''subscription_confirmed''
                           (SubscriptionConfirmed (JStr t) ''subscribed'') sid] \<and>
            (distinct (map fst (client_subscriptions st)) \<longrightarrow>
               count_list (members_of (JStr t) (state r)) sid = 1))"
proof -
  have once: "handle_subscribe st sid data = handle_subscribe st sid (JStr t)"
    using assms by (auto simp: subscribe_object_form)
  have times: "subscribe_times n st sid data = subscribe_times n st sid (JStr t)"
    using assms by (auto simp: subscribe_times_object_form)
  have each: "state r = state (handle_subscribe st sid data) \<and>
            raised r = None \<and>
            emitted r = [Emit ''subscription_confirmed''
                           (SubscriptionConfirmed (JStr t) ''subscribed'') sid] \<and>
            (distinct (map fst (client_subscriptions st)) \<longrightarrow>
               count_list (members_of (JStr t) (state r)) sid = 1)"
    if "r \<in> set (subscribe_times n st sid data)" for r
  proof -
    from that times have r: "r = handle_subscribe st sid (JStr t)"
      by (simp add: subscribe_times_all)
    have "raised r = None"
      and "emitted r = [Emit ''subscription_confirmed''
                           (SubscriptionConfirmed (JStr t) ''subscribed'') sid]"
      unfolding r by (simp_all add: subscribe_string_result)
    moreover have "state r = state (handle_subscribe st sid data)"
      using r once by simp
    moreover have "distinct (map fst (client_subscriptions st)) \<longrightarrow>
               count_list (members_of (JStr t) (state r)) sid = 1"
      unfolding r by (simp add: subscribed_once)
    ultimately show ?thesis by simp
  qed
  from each show ?thesis
    using length_subscribe_times[of n st sid data] by blast
qed

theorem C5_subscribe_idempotent_witness:
  "length (subscribe_times 3 two_clients ''a'' (JStr ''stream_frames'')) = 3 \<and>
   distinct (map fst (client_subscriptions two_clients)) \<and>
   map (\<lambda>r. client_subscriptions (state r))
     (subscribe_times 3 two_clients ''a'' (JStr ''stream_frames'')) =
       replicate 3 [(''a'', {JStr ''stream_frames''}), (''b'', {JStr ''stream_frames''})] \<and>
   map raised (subscribe_times 3 two_clients ''a'' (JStr ''stream_frames'')) =
       replicate 3 None \<and>
   map emitted (subscribe_times 3 two_clients ''a'' (JStr ''stream_frames'')) =
       replicate 3 [Emit ''subscription_confirmed''
                     (SubscriptionConfirmed (JStr ''stream_frames'') ''subscribed'') ''a''] \<and>
   map (\<lambda>r. count_list (members_of (JStr ''stream_frames'') (state r)) ''a'')
     (subscribe_times 3 two_clients ''a'' (JStr ''stream_frames'')) = replicate 3 1 \<and>
   subscribe_times 2 two_clients ''a'' (JObj [(''topic'', JStr ''news'')]) =
     [handle_subscribe two_clients ''a'' (JStr ''news''),
      handle_subscribe two_clients ''a'' (JStr ''news'')]"
proof -
  have three: "(3::nat) = Suc (Suc (Suc 0))" and two: "(2::nat) = Suc (Suc 0)"
    by simp_all
  have tc: "two_clients =
     \<lparr>connected_clients = [(''a'', \<lparr>connected_at = 1, ip = Some ''10.0.0.7''\<rparr>),
                            (''b'', \<lparr>connected_at = 3, ip = None\<rparr>)],
      client_subscriptions = [(''a'', {}), (''b'', {JStr ''stream_frames''})]\<rparr>"
    by (simp add: two_clients_def handler_defs)
  have d: "distinct (map fst (client_subscriptions two_clients))"
    by (simp add: tc)
  have st: "client_subscriptions (state (handle_subscribe two_clients ''a'' (JStr ''stream_frames'')))
     = [(''a'', {JStr ''stream_frames''}), (''b'', {JStr ''stream_frames''})]"
    by (simp add: tc handler_defs)
  have obj: "subscribe_times 2 two_clients ''a'' (JObj [(''topic'', JStr ''news'')]) =
     [handle_subscribe two_clients ''a'' (JStr ''news''),
      handle_subscribe two_clients ''a'' (JStr ''news'')]"
    unfolding two by (simp add: tc handler_defs)
  note inst = C5_subscribe_idempotent [where data = "JStr ''stream_frames''"
      and t = "''stream_frames''" and n = 3 and st = two_clients and sid = "''a''"]
  have len: "length (subscribe_times 3 two_clients ''a'' (JStr ''stream_frames'')) = 3"
    using inst by blast
  have each: "client_subscriptions (state r) =
        [(''a'', {JStr ''stream_frames''}), (''b'', {JStr ''stream_frames''})] \<and>
      raised r = None \<and>
      emitted r = [Emit ''subscription_confirmed''
                     (SubscriptionConfirmed (JStr ''stream_frames'') ''subscribed'') ''a''] \<and>
      count_list (members_of (JStr ''stream_frames'') (state r)) ''a'' = 1"
    if "r \<in> set (subscribe_times 3 two_clients ''a'' (JStr ''stream_frames''))" for r
  proof -
    from inst that d have
      "state r = state (handle_subscribe two_clients ''a'' (JStr ''stream_frames''))"
      "raised r = None"
      "emitted r = [Emit ''subscription_confirmed''
                     (SubscriptionConfirmed (JStr ''stream_frames'') ''subscribed'') ''a'']"
      "count_list (members_of (JStr ''stream_frames'') (state r)) ''a'' = 1"
      by blast+
    with st show ?thesis by simp
  qed
  have maps: "map f xs = replicate (length xs) v" if "\<And>x. x \<in> set xs \<Longrightarrow> f x = v"
    for f :: "handler_result \<Rightarrow> 'b" and xs v
    using that by (induction xs) simp_all
  have m1: "map (\<lambda>r. client_subscriptions (state r))
     (subscribe_times 3 two_clients ''a'' (JStr ''stream_frames'')) =
       replicate 3 [(''a'', {JStr ''stream_frames''}), (''b'', {JStr ''stream_frames''})]"
    using maps[of "subscribe_times 3 two_clients ''a'' (JStr ''stream_frames'')"
        "\<lambda>r. client_subscriptions (state r)"] each len by simp
  have m2: "map raised (subscribe_times 3 two_clients ''a'' (JStr ''stream_frames'')) =
       replicate 3 None"
    using maps[of "subscribe_times 3 two_clients ''a'' (JStr ''stream_frames'')" raised]
      each len by simp
  have m3: "map emitted (subscribe_times 3 two_clients ''a'' (JStr ''stream_frames'')) =
       replicate 3 [Emit ''subscription_confirmed''
                     (SubscriptionConfirmed (JStr ''stream_frames'') ''subscribed'') ''a'']"
    using maps[of "subscribe_times 3 two_clients ''a'' (JStr ''stream_frames'')" emitted]
      each len by simp
  have m4: "map (\<lambda>r. count_list (members_of (JStr ''stream_frames'') (state r)) ''a'')
     (subscribe_times 3 two_clients ''a'' (JStr ''stream_frames'')) = replicate 3 1"
    using maps[of "subscribe_times 3 two_clients ''a'' (JStr ''stream_frames'')"
        "\<lambda>r. count_list (members_of (JStr ''stream_frames'') (state r)) ''a''"] each len
    by simp
  from len d m1 m2 m3 m4 obj show ?thesis by blast
qed

subsection \<open>Frame numbers\<close>

lemma digit_val: "d < 10 \<Longrightarrow> (of_char (digit_char d) :: nat) = 48 + d"
  by (simp add: digit_char_def)

lemma undigits_digits: "undigits (digits n) = n"
proof (induction n rule: digits.induct)
  case (1 n)
  show ?case
  proof (cases "n < 10")
    case True
    then show ?thesis by (simp add: digits.simps[of n] undigits_def digit_val)
  next
    case False
    with 1 have "undigits (digits (n div 10)) = n div 10" by simp
    then show ?thesis using False
      by (simp add: digits.simps[of n] undigits_def digit_val)
  qed
qed

lemma digits_inj: "digits m = digits n \<Longrightarrow> m = n"
  by (metis undigits_digits)

lemma digits_nonempty: "digits n \<noteq> []"
  by (simp add: digits.simps[of n])

lemma digit_char_not_minus: "d < 10 \<Longrightarrow> digit_char d \<noteq> CHR ''-''"
proof
  assume d: "d < 10" and "digit_char d = CHR ''-''"
  then have "(of_char (digit_char d) :: nat) = of_char CHR ''-''" by simp
  with d show False by (simp add: digit_val)
qed

lemma hd_digits: "hd (digits n) \<noteq> CHR ''-''"
proof (induction n rule: digits.induct)
  case (1 n)
  show ?case
  proof (cases "n < 10")
    case True
    then show ?thesis by (simp add: digits.simps[of n] digit_char_not_minus)
  next
    case False
    with 1 have "hd (digits (n div 10)) \<noteq> CHR ''-''" by simp
    then show ?thesis using False digits_nonempty[of "n div 10"]
      by (simp add: digits.simps[of n])
  qed
qed

lemma str_int_inj: "str_int j = str_int k \<Longrightarrow> j = k"
proof -
  assume eq: "str_int j = str_int k"
  consider "j < 0" "k < 0" | "j < 0" "0 \<le> k" | "0 \<le> j" "k < 0" | "0 \<le> j" "0 \<le> k"
    by linarith
  then show "j = k"
  proof cases
    case 1
    with eq have "digits (nat (- j)) = digits (nat (- k))" by (simp add: str_int_def)
    then have "nat (- j) = nat (- k)" by (rule digits_inj)
    with 1 show ?thesis by simp
  next
    case 2
    with eq have "CHR ''-'' # digits (nat (- j)) = digits (nat k)" by (simp add: str_int_def)
    then have "hd (digits (nat k)) = CHR ''-''" by (metis list.sel(1))
    then show ?thesis using hd_digits by simp
  next
    case 3
    with eq have "CHR ''-'' # digits (nat (- k)) = digits (nat j)" by (simp add: str_int_def)
    then have "hd (digits (nat j)) = CHR ''-''" by (metis list.sel(1))
    then show ?thesis using hd_digits by simp
  next
    case 4
    with eq have "digits (nat j) = digits (nat k)" by (simp add: str_int_def)
    then have "nat j = nat k" by (rule digits_inj)
    with 4 show ?thesis by simp
  qed
qed

lemma tick_counter_step:
  "i \<le> next_i (broadcast_tick l rd tr st lr i)"
  by (simp add: tick_next_i)

lemma loop_counters_bounded:
  "r \<in> set (broadcast_loop l passes i) \<Longrightarrow> i \<le> next_i r"
proof (induction passes arbitrary: i)
  case Nil
  then show ?case by simp
next
  case (Cons p passes)
  obtain rd tr st lr where p: "p = (rd, tr, st, lr)" by (cases p)
  let ?t = "broadcast_tick l rd tr st lr i"
  from Cons.prems p have "r = ?t \<or> r \<in> set (broadcast_loop l passes (next_i ?t))"
    by (simp add: Let_def)
  then show ?case
  proof
    assume "r = ?t" then show ?thesis by (simp add: tick_counter_step)
  next
    assume "r \<in> set (broadcast_loop l passes (next_i ?t))"
    then have "next_i ?t \<le> next_i r" by (rule Cons.IH)
    with tick_counter_step[of i l rd tr st lr] show ?thesis by linarith
  qed
qed

lemma loop_counters_sorted:
  "sorted (i # map next_i (broadcast_loop l passes i))"
proof (induction passes arbitrary: i)
  case Nil
  then show ?case by simp
next
  case (Cons p passes)
  obtain rd tr st lr where p: "p = (rd, tr, st, lr)" by (cases p)
  let ?t = "broadcast_tick l rd tr st lr i"
  have "sorted (next_i ?t # map next_i (broadcast_loop l passes (next_i ?t)))"
    by (rule Cons.IH)
  moreover have "\<forall>r \<in> set (broadcast_loop l (p # passes) i). i \<le> next_i r"
    using loop_counters_bounded by blast
  ultimately show ?case using p by (simp add: Let_def)
qed

text \<open>
  C4, as the code has it. The number in the name of a scheduler frame is the loop's local
  counter. A pass advances it by one when it runs to its end: the registry is not empty,
  no send raises, and neither iteration over the live table (the \<^verbatim>\<open>for\<close> loop and
  the count for the last \<^verbatim>\<open>print\<close>) raises because a handler thread changed the
  table. Every other pass leaves it as it is, also one that had sent the frame to every
  subscriber before the error. Along the passes of the loop the counter never decreases;
  different counter values give different frame messages. A frame produced for a direct
  image request carries no such number: its name holds the clock's whole seconds.
\<close>

theorem C4_frame_counter:
  "next_i (broadcast_tick l rd tr st lr i) =
     (if connected_clients st \<noteq> [] \<and>
         DictChanged \<notin> set (items_iter lr) \<and>
         DictChanged \<notin> set (values_iter lr) \<and>
         (\<forall>sid \<in> set (stream_members (yielded (items_iter lr))). tr (frame_message l rd i sid))
      then i + 1 else i) \<and>
   sorted (i # map next_i (broadcast_loop l passes i)) \<and>
   (j \<noteq> k \<longrightarrow> frame_message l rd j sid \<noteq> frame_message l rd k sid) \<and>
   img_name (generate_test_image l rd) =
     ''test_image_'' @ str_int (py_int (time_time rd)) @ ''.png''"
proof -
  have "j \<noteq> k \<longrightarrow> frame_message l rd j sid \<noteq> frame_message l rd k sid"
    by (auto simp: frame_message_def dest: str_int_inj)
  moreover have "img_name (generate_test_image l rd) =
     ''test_image_'' @ str_int (py_int (time_time rd)) @ ''.png''"
    by (simp add: generate_test_image_def Let_def)
  ultimately show ?thesis
    using tick_next_i[of l rd tr st lr i] loop_counters_sorted[of i l passes] by simp
qed

theorem C4_frame_counter_witness:
  "map next_i (broadcast_loop test_lib
      [(test_reads, (\<lambda>e. True), three_subscribers, quiet_reads three_subscribers),
       (test_reads, fails_for ''b'', three_subscribers, quiet_reads three_subscribers),
       (test_reads, (\<lambda>e. True), three_subscribers, resized_after 1 three_subscribers),
       (test_reads, (\<lambda>e. True), three_subscribers, resized_after 3 three_subscribers),
       (test_reads, (\<lambda>e. True), three_subscribers, resized_in_count three_subscribers),
       (later_reads, (\<lambda>e. True), three_subscribers, quiet_reads three_subscribers),
       (later_reads, (\<lambda>e. True), orphan_stream, quiet_reads orphan_stream)] 0)
     = [1, 1, 1, 1, 1, 2, 2] \<and>
   (0::int) \<noteq> 1 \<and>
   frame_message test_lib test_reads 0 ''a'' \<noteq> frame_message test_lib test_reads 1 ''a'' \<and>
   img_name (generate_test_image test_lib test_reads) = ''test_image_100.png''"
  using C4_frame_counter [of test_lib test_reads "\<lambda>e. True" three_subscribers
      "quiet_reads three_subscribers" 0
      "[(test_reads, (\<lambda>e. True), three_subscribers, quiet_reads three_subscribers),
       (test_reads, fails_for ''b'', three_subscribers, quiet_reads three_subscribers),
       (test_reads, (\<lambda>e. True), three_subscribers, resized_after 1 three_subscribers),
       (test_reads, (\<lambda>e. True), three_subscribers, resized_after 3 three_subscribers),
       (test_reads, (\<lambda>e. True), three_subscribers, resized_in_count three_subscribers),
       (later_reads, (\<lambda>e. True), three_subscribers, quiet_reads three_subscribers),
       (later_reads, (\<lambda>e. True), orphan_stream, quiet_reads orphan_stream)]" 0 1 "''a''"]
  by (simp add: three_subscribers_def orphan_stream_def handler_defs tick_defs
      py_int_sample str_int_100 resized_after_def resized_in_count_def)

text \<open>
  C4 as stated fails: two images produced at different instants of the same second have
  the same name, and the frames of two successive passes both have number 0 when a send
  of the first pass raises.
\<close>

theorem C4_number_repeats_counterexample:
  "time_time test_reads < time_time later_reads \<and>
   img_name (generate_test_image test_lib test_reads) = ''test_image_100.png'' \<and>
   img_name (generate_test_image test_lib later_reads) = ''test_image_100.png'' \<and>
   map tick_emitted (broadcast_frames test_lib
      [(test_reads, fails_for ''b'', three_subscribers, quiet_reads three_subscribers),
       (later_reads, (\<lambda>e. True), three_subscribers, quiet_reads three_subscribers)]) =
     [[Emit ''stream_frames'' (SendFrames ''send_frames'' ''test_frame_0'' ''iVBORw0KGgo='') ''a''],
      [Emit ''stream_frames'' (SendFrames ''send_frames'' ''test_frame_0'' ''iVBORw0KGgo='') ''a'',
       Emit ''stream_frames'' (SendFrames ''send_frames'' ''test_frame_0'' ''iVBORw0KGgo='') ''b'',
       Emit ''stream_frames'' (SendFrames ''send_frames'' ''test_frame_0'' ''iVBORw0KGgo='') ''c'']]"
  by (simp add: three_subscribers_def handler_defs tick_defs later_reads_def broadcast_frames_def
      py_int_sample str_int_100 str_int_0)

end
